theory Spec2Isabelle
  imports Main "HOL-Library.Sublist"
begin

section \<open>Python string operations used by the persona store\<close>

text \<open>
  Python strings are modelled as \<open>string\<close>, one \<open>char\<close> per code point; the model covers
  the code points below 256. Every literal of the source is ASCII, and a newline is written
  \<open>\<newline>\<close> inside a literal.
\<close>

text \<open>\<open>s.startswith(p)\<close>.\<close>

definition startswith :: "string \<Rightarrow> string \<Rightarrow> bool" where
  "startswith s p = prefix p s"

text \<open>
  \<open>sub in s\<close> on strings: some position of \<open>s\<close> starts an occurrence of \<open>sub\<close>; the empty
  string occurs in every string.
\<close>

fun str_in :: "string \<Rightarrow> string \<Rightarrow> bool" where
  "str_in sub [] = (sub = [])"
| "str_in sub (c # cs) = (prefix sub (c # cs) \<or> str_in sub cs)"

text \<open>
  \<open>s.split(sep)\<close>: the string is cut at the occurrences of \<open>sep\<close>, found from left to right
  without overlap. Python raises ValueError for an empty separator; the source only passes
  the constant separators \<open>"\n## "\<close> and \<open>"\n"\<close>, and the model returns the string uncut
  there.
\<close>

fun split_py :: "string \<Rightarrow> string \<Rightarrow> string list" where
  "split_py sep [] = [[]]"
| "split_py sep (c # cs) =
     (if sep \<noteq> [] \<and> prefix sep (c # cs)
      then [] # split_py sep (drop (length sep) (c # cs))
      else (case split_py sep cs of
              [] \<Rightarrow> [[c]]
            | p # ps \<Rightarrow> (c # p) # ps))"

text \<open>\<open>s.split(sep, 1)\<close>: at most one cut, at the leftmost occurrence of \<open>sep\<close>.\<close>

fun split1_py :: "string \<Rightarrow> string \<Rightarrow> string list" where
  "split1_py sep [] = [[]]"
| "split1_py sep (c # cs) =
     (if sep \<noteq> [] \<and> prefix sep (c # cs)
      then [[], drop (length sep) (c # cs)]
      else (case split1_py sep cs of
              [] \<Rightarrow> [[c]]
            | p # ps \<Rightarrow> (c # p) # ps))"

text \<open>
  \<open>s.replace(old, new)\<close>: every occurrence of \<open>old\<close>, found from left to right without
  overlap, is replaced. The source calls it with \<open>old = "# "\<close>.
\<close>

fun replace_py :: "string \<Rightarrow> string \<Rightarrow> string \<Rightarrow> string" where
  "replace_py old new [] = []"
| "replace_py old new (c # cs) =
     (if old \<noteq> [] \<and> prefix old (c # cs)
      then new @ replace_py old new (drop (length old) (c # cs))
      else c # replace_py old new cs)"

text \<open>
  \<open>s.strip()\<close> removes leading and trailing whitespace. Below 256 the code points that
  \<open>str.isspace\<close> accepts are 9 to 13, 28 to 32, 133 and 160.
\<close>

definition isspace :: "char \<Rightarrow> bool" where
  "isspace c \<longleftrightarrow> c \<in> set [CHR 0x09, CHR 0x0A, CHR 0x0B, CHR 0x0C, CHR 0x0D,
                            CHR 0x1C, CHR 0x1D, CHR 0x1E, CHR 0x1F, CHR 0x20,
                            CHR 0x85, CHR 0xA0]"

definition strip :: "string \<Rightarrow> string" where
  "strip s = rev (dropWhile isspace (rev (dropWhile isspace s)))"

text \<open>\<open>sep.join(xs)\<close>.\<close>

fun join_py :: "string \<Rightarrow> string list \<Rightarrow> string" where
  "join_py sep [] = []"
| "join_py sep [x] = x"
| "join_py sep (x # y # ys) = x @ sep @ join_py sep (y # ys)"

section \<open>Persona records and the README document\<close>

text \<open>
  A persona is the dict with the four keys \<open>name\<close>, \<open>prompt\<close>, \<open>image\<close> and
  \<open>entry_message\<close> that \<open>parse_readme\<close> returns; the field for \<open>image\<close> is called
  \<open>image_p\<close>, since \<open>image\<close> is a constant of HOL.
\<close>

record persona =
  name :: string
  prompt :: string
  image_p :: string
  entry_message :: string

datatype error = IndexError | KeyError string | ValidationError | RecursionError

text \<open>
  One line of the Metadata section (the body of the inner loop of \<open>parse_readme\<close>): a line
  \<open>- key: value\<close> stores the stripped value under the key, whatever the key is; any other
  line leaves the dict as it is.
\<close>

definition metadata_line :: "string \<Rightarrow> (string \<rightharpoonup> string) \<Rightarrow> (string \<rightharpoonup> string)" where
  "metadata_line line metadata =
     (if startswith line ''- ''
      then (case split1_py '': '' (drop 2 line) of
              [key, val] \<Rightarrow> metadata(key \<mapsto> strip val)
            | _ \<Rightarrow> metadata)
      else metadata)"

text \<open>
  The loop over the sections: the first section that starts with \<open>Metadata\<close> is scanned line
  by line, and the \<open>break\<close> ends the loop there.
\<close>

fun scan_sections :: "string list \<Rightarrow> (string \<rightharpoonup> string) \<Rightarrow> (string \<rightharpoonup> string)" where
  "scan_sections [] metadata = metadata"
| "scan_sections (section # rest) metadata =
     (if startswith section ''Metadata''
      then fold metadata_line (split_py ''\<newline>'' section) metadata
      else scan_sections rest metadata)"

text \<open>\<open>d.get(k, "")\<close> on the metadata dict.\<close>

definition get_or_empty :: "(string \<rightharpoonup> string) \<Rightarrow> string \<Rightarrow> string" where
  "get_or_empty d k = (case d k of None \<Rightarrow> [] | Some v \<Rightarrow> v)"

text \<open>
  \<open>PersonaManager.parse_readme\<close>. It first runs \<open>self.md.reset()\<close> and
  \<open>self.md.convert(content)\<close> of the markdown library. The HTML is never read, but an
  exception of the conversion (RecursionError on a document nested too deeply) leaves
  \<open>parse_readme\<close>, which catches nothing. The conversion is the parameter \<open>md_convert\<close>:
  it gives the exception or the HTML. \<open>sections[0].split("\n\n", 1)[1]\<close> raises
  IndexError when the first section holds no blank line.
\<close>

definition parse_readme :: "(string \<Rightarrow> error + string) \<Rightarrow> string \<Rightarrow> error + persona" where
  "parse_readme md_convert content =
     (case md_convert content of
        Inl e \<Rightarrow> Inl e
      | Inr html \<Rightarrow>
     (case split_py ''\<newline>## '' content of
        [] \<Rightarrow> Inl IndexError
      | first # others \<Rightarrow>
          (case split1_py ''\<newline>'' first of
             [] \<Rightarrow> Inl IndexError
           | title # _ \<Rightarrow>
               (case split1_py ''\<newline>\<newline>'' first of
                  _ # body # _ \<Rightarrow>
                    (let metadata = scan_sections (first # others)
                                      [''image'' \<mapsto> [], ''entry_message'' \<mapsto> []]
                     in Inr \<lparr>name = strip (replace_py ''# '' [] title),
                             prompt = strip body,
                             image_p = get_or_empty metadata ''image'',
                             entry_message = get_or_empty metadata ''entry_message''\<rparr>)
                | _ \<Rightarrow> Inl IndexError))))"

text \<open>The document text that \<open>PersonaManager.save_persona\<close> builds with its f-string.\<close>

definition readme_content :: "persona \<Rightarrow> string" where
  "readme_content persona =
     ''# '' @ name persona @ ''\<newline>\<newline>'' @ prompt persona @
     ''\<newline>\<newline>## Characteristics\<newline>- Gen-Z speech patterns\<newline>- Tech-savvy and modern\<newline>- Playful and engaging personality\<newline>- Unique perspective on their domain\<newline>\<newline>## Voice\<newline>'' @
     name persona @
     '' speaks with:\<newline>- modern internet slang\<newline>- expertise in their field\<newline>\<newline>## Metadata\<newline>- image: '' @
     image_p persona @ ''\<newline>- entry_message: '' @ entry_message persona @ ''\<newline>''"

section \<open>The persona store\<close>

text \<open>
  \<open>self.personas\<close> is a dict from persona key to persona dict. Persona dicts are mutable
  objects: the mapping holds references, \<open>heap\<close> gives the object behind each reference and
  \<open>next_ref\<close> is the first reference not yet allocated. The association list keeps the
  insertion order of the dict. \<open>files\<close> holds the text of \<open>README.md\<close> of each persona
  directory, and \<open>writable\<close> says for which keys creating the directory and writing the
  file succeed.
\<close>

record store =
  personas :: "(string \<times> nat) list"
  heap :: "nat \<Rightarrow> persona"
  next_ref :: nat
  files :: "string \<rightharpoonup> string"
  writable :: "string \<Rightarrow> bool"

text \<open>The record that the mapping holds under a key.\<close>

definition stored :: "store \<Rightarrow> string \<Rightarrow> persona option" where
  "stored s key = map_option (heap s) (map_of (personas s) key)"

text \<open>
  The keys of a store are names of persona directories, so they are not empty, and every
  reference of the mapping is allocated.
\<close>

definition store_ok :: "store \<Rightarrow> bool" where
  "store_ok s \<longleftrightarrow> (\<forall>(key, a) \<in> set (personas s). key \<noteq> [] \<and> a < next_ref s)"

text \<open>
  \<open>PersonaManager.save_persona\<close>: any exception of the directory creation or of the write
  is caught and gives False; the model leaves the files as they are then.
\<close>

definition save_persona :: "string \<Rightarrow> persona \<Rightarrow> store \<Rightarrow> bool \<times> store" where
  "save_persona key persona s =
     (if writable s key
      then (True, s\<lparr>files := (files s)(key \<mapsto> readme_content persona)\<rparr>)
      else (False, s))"

text \<open>
  \<open>PersonaManager.update_persona_image\<close>: the stored dict is changed in place, before the
  save. \<open>image_path\<close> is the result of \<open>str(image_path)\<close>.
\<close>

definition update_persona_image :: "string \<Rightarrow> string \<Rightarrow> store \<Rightarrow> bool \<times> store" where
  "update_persona_image key image_path s =
     (case map_of (personas s) key of
        Some a \<Rightarrow>
          (let s1 = s\<lparr>heap := (heap s)(a := (heap s a)\<lparr>image_p := image_path\<rparr>)\<rparr>
           in save_persona key (heap s1 a) s1)
      | None \<Rightarrow> (False, s))"

text \<open>\<open>PersonaManager.needs_image_upload\<close>.\<close>

definition needs_image_upload :: "string \<Rightarrow> string \<Rightarrow> store \<Rightarrow> bool" where
  "needs_image_upload key domain s =
     (case map_of (personas s) key of
        None \<Rightarrow> False
      | Some a \<Rightarrow>
          (let current_url = image_p (heap s a)
           in \<not> (current_url \<noteq> [] \<and> str_in domain current_url)))"

text \<open>\<open>d.copy()\<close>: a new dict object with the same four entries.\<close>

definition copy_dict :: "nat \<Rightarrow> store \<Rightarrow> nat \<times> store" where
  "copy_dict a s =
     (next_ref s, s\<lparr>heap := (heap s)(next_ref s := heap s a), next_ref := Suc (next_ref s)\<rparr>)"

text \<open>
  \<open>random.choice(xs)\<close> raises IndexError on an empty list; \<open>rnd\<close> is the draw of the
  generator, reduced to an index of the list.
\<close>

definition random_choice :: "nat \<Rightarrow> 'a list \<Rightarrow> error + 'a" where
  "random_choice rnd xs = (if xs = [] then Inl IndexError else Inr (xs ! (rnd mod length xs)))"

definition interaction_instructions :: string where
  "interaction_instructions =
     ''\<newline>Remember:\<newline>1. Start by clearly stating who you are\<newline>2. When someone new speaks, ask them who they are\<newline>3. Then consider and express how their role/expertise could help you''"

text \<open>The message of the KeyError of \<open>get_persona\<close>; \<open>CHR 0x27\<close> is the single quote.\<close>

definition not_found_message :: "string \<Rightarrow> string list \<Rightarrow> string" where
  "not_found_message key keys =
     ''Persona '' @ [CHR 0x27] @ key @ [CHR 0x27] @ '' not found. Valid options: '' @
     join_py '', '' keys"

text \<open>
  \<open>PersonaManager.get_persona\<close>. The argument is \<open>None\<close> or a string, and \<open>if name:\<close> takes
  the by-key branch for a non-empty string only. The result is the reference of the dict
  that is returned.
\<close>

definition get_persona :: "nat \<Rightarrow> string option \<Rightarrow> store \<Rightarrow> (error + nat) \<times> store" where
  "get_persona rnd name_arg s =
     (let chosen =
            (case name_arg of
               Some key \<Rightarrow>
                 (if key \<noteq> []
                  then (case map_of (personas s) key of
                          None \<Rightarrow> Inl (KeyError (not_found_message key (map fst (personas s))))
                        | Some a \<Rightarrow> Inr a)
                  else random_choice rnd (map snd (personas s)))
             | None \<Rightarrow> random_choice rnd (map snd (personas s)))
      in case chosen of
           Inl e \<Rightarrow> (Inl e, s)
         | Inr a \<Rightarrow>
             (let (b, s1) = copy_dict a s;
                  s2 = (if image_p (heap s1 b) = []
                        then s1\<lparr>heap := (heap s1)(b := (heap s1 b)\<lparr>image_p := []\<rparr>)\<rparr>
                        else s1);
                  s3 = s2\<lparr>heap := (heap s2)(b := (heap s2 b)\<lparr>prompt :=
                                   prompt (heap s2 b) @ interaction_instructions\<rparr>)\<rparr>
              in (Inr b, s3)))"

section \<open>The meeting bot request\<close>

text \<open>
  \<open>Streaming\<close>; its fields \<open>input\<close> and \<open>output\<close> are called \<open>input_url\<close> and
  \<open>output_url\<close>, since \<open>output\<close> is a keyword of Isabelle.
\<close>

record streaming_cfg =
  input_url :: string
  output_url :: string
  audio_frequency :: string

record speech_to_text_cfg =
  provider :: string
  api_key :: "string option"

record automatic_leave_cfg =
  waiting_room_timeout :: int
  noone_joined_timeout :: int

datatype recording_mode = SPEAKER_VIEW | GALLERY_VIEW | SCREEN_SHARE

text \<open>
  \<open>MeetingBaasRequest\<close>; the field \<open>entry_message\<close> of the request is called
  \<open>entry_message_r\<close>, apart from the field of a persona. \<open>'x\<close> is the type of the free-form
  \<open>extra\<close> dict.
\<close>

record 'x meeting_baas_request =
  meeting_url :: string
  bot_name :: string
  reserved :: bool
  streaming :: streaming_cfg
  automatic_leave :: automatic_leave_cfg
  recording_mode :: recording_mode
  bot_image :: "string option"
  deduplication_key :: "string option"
  entry_message_r :: "string option"
  extra :: "'x option"
  speech_to_text :: "speech_to_text_cfg option"
  start_time :: "int option"
  webhook_url :: "string option"

text \<open>
  The request that \<open>create_meeting_bot\<close> constructs (up to the recorder-only adjustment).
  The field \<open>bot_image\<close> has the type \<open>HttpUrl\<close> of the pydantic library, whose validation
  is the parameter \<open>http_url\<close>: it gives \<open>None\<close> for a string that pydantic rejects, and
  the constructor raises a validation error then, which nothing in \<open>create_meeting_bot\<close>
  catches; otherwise it gives the URL as pydantic normalises it, and that is the value of
  the field.
\<close>

definition create_meeting_bot_request ::
  "(string \<Rightarrow> string option) \<Rightarrow> string \<Rightarrow> string \<Rightarrow> string \<Rightarrow> string \<Rightarrow> bool \<Rightarrow>
   string option \<Rightarrow> string option \<Rightarrow> 'x option \<Rightarrow> string \<Rightarrow> error + 'x meeting_baas_request" where
  "create_meeting_bot_request http_url meeting_url_arg websocket_url bot_id persona_name
       recorder_only bot_image_arg entry_message_arg extra_arg streaming_audio_frequency =
     (let websocket_with_path = websocket_url @ ''/ws/'' @ bot_id;
          streaming_v = \<lparr>input_url = websocket_with_path, output_url = websocket_with_path,
                         audio_frequency = streaming_audio_frequency\<rparr>;
          validated = (case bot_image_arg of
                         None \<Rightarrow> Inr None
                       | Some u \<Rightarrow> (case http_url u of
                                     None \<Rightarrow> Inl ValidationError
                                   | Some v \<Rightarrow> Inr (Some v)))
      in case validated of
           Inl e \<Rightarrow> Inl e
         | Inr image_v \<Rightarrow>
             Inr \<lparr>meeting_url = meeting_url_arg, bot_name = persona_name, reserved = False,
                  streaming = streaming_v,
                  automatic_leave = \<lparr>waiting_room_timeout = 600, noone_joined_timeout = 0\<rparr>,
                  recording_mode = SPEAKER_VIEW,
                  bot_image = image_v,
                  deduplication_key = Some (persona_name @ ''-BaaS-'' @ bot_id),
                  entry_message_r = entry_message_arg, extra = extra_arg,
                  speech_to_text =
                    (if recorder_only then Some \<lparr>provider = ''Default'', api_key = None\<rparr>
                     else None),
                  start_time = None, webhook_url = None\<rparr>)"

section \<open>Example data\<close>

text \<open>The persona of the specification's example, and a store that holds it alone.\<close>

definition nova :: persona where
  "nova = \<lparr>name = ''Nova'', prompt = ''I am Nova.'', image_p = [], entry_message = ''hi''\<rparr>"

definition nova_store :: store where
  "nova_store = \<lparr>personas = [(''nova'', 0)], heap = (\<lambda>_. nova), next_ref = 1,
                 files = [''nova'' \<mapsto> readme_content nova], writable = (\<lambda>_. True)\<rparr>"

text \<open>
  A markdown conversion that raises on no document; its HTML is left empty, since nothing
  reads it.
\<close>

definition md_plain :: "string \<Rightarrow> error + string" where
  "md_plain content = Inr []"

text \<open>
  A validation of URLs that accepts every string and appends the slash of an empty path,
  and the request for that persona with an avatar and without extra data.
\<close>

definition url_with_slash :: "string \<Rightarrow> string option" where
  "url_with_slash u = Some (u @ ''/'')"

definition nova_request :: "unit meeting_baas_request" where
  "nova_request =
     \<lparr>meeting_url = ''https://meet.example/abc'', bot_name = ''Nova'', reserved = False,
      streaming = \<lparr>input_url = ''wss://host/ws/42'', output_url = ''wss://host/ws/42'',
                   audio_frequency = ''24khz''\<rparr>,
      automatic_leave = \<lparr>waiting_room_timeout = 600, noone_joined_timeout = 0\<rparr>,
      recording_mode = SPEAKER_VIEW, bot_image = Some ''https://x.com/'',
      deduplication_key = Some ''Nova-BaaS-42'', entry_message_r = Some ''hi'',
      extra = None, speech_to_text = None, start_time = None, webhook_url = None\<rparr>"


definition header_persona :: persona where
  "header_persona = \<lparr>name = ''Nova'', prompt = ''Hi\<newline>## Metadata'',
                      image_p = ''https://x.com/a.png'', entry_message = ''hello''\<rparr>"

definition sections_persona :: persona where
  "sections_persona = \<lparr>name = ''C# Guru'', prompt = ''I code.\<newline>## Skills\<newline>Talking'',
                      image_p = ''https://x.com/a.png'', entry_message = ''hello''\<rparr>"

section \<open>The sections of a saved document\<close>

text \<open>
  The text that \<open>save_persona\<close> writes, cut at its three \<open>"\n## "\<close> headers: the head with
  the title and the prompt, and the Characteristics, Voice and Metadata sections.
\<close>

definition sec_characteristics :: string where
  "sec_characteristics =
     ''Characteristics\<newline>- Gen-Z speech patterns\<newline>- Tech-savvy and modern\<newline>- Playful and engaging personality\<newline>- Unique perspective on their domain\<newline>''"

definition sec_voice :: "string \<Rightarrow> string" where
  "sec_voice n =
     ''Voice\<newline>'' @ n @ '' speaks with:\<newline>- modern internet slang\<newline>- expertise in their field\<newline>''"

definition sec_metadata :: "string \<Rightarrow> string \<Rightarrow> string" where
  "sec_metadata img em =
     ''Metadata\<newline>- image: '' @ img @ ''\<newline>- entry_message: '' @ em @ ''\<newline>''"

definition sec_head :: "string \<Rightarrow> string \<Rightarrow> string" where
  "sec_head n p = ''# '' @ n @ ''\<newline>\<newline>'' @ p @ ''\<newline>''"

section \<open>Substrings\<close>

text \<open>\<open>str_in\<close> is the substring relation.\<close>

lemma str_in_iff_sublist: "str_in sub s \<longleftrightarrow> sublist sub s"
  by (induction s) (auto simp add: sublist_Cons_right)

section \<open>Cutting a string at a separator\<close>

lemma split_py_not_Nil: "split_py sep s \<noteq> []"
  by (induction sep s rule: split_py.induct) (auto split: list.splits)

lemma str_in_absent_char: "c0 \<notin> set a \<Longrightarrow> \<not> str_in (c0 # t) a"
  by (induction a) auto

lemma str_in_skip: "c0 \<notin> set a \<Longrightarrow> str_in (c0 # t) (a @ b) = str_in (c0 # t) b"
  by (induction a) auto

lemma prefix_cut: "c0 \<notin> set t \<Longrightarrow> prefix t (u @ c0 # b) \<Longrightarrow> prefix t u"
  by (auto simp add: prefix_append prefix_Cons)

lemma prefix_cut_Cons:
  "c0 \<notin> set t \<Longrightarrow> prefix (c0 # t) (x # u @ c0 # b) \<longleftrightarrow> prefix (c0 # t) (x # u)"
  using prefix_cut [of c0 t u b] by (auto simp add: prefix_append)

lemma str_in_at_char:
  "c0 \<notin> set t \<Longrightarrow>
   str_in (c0 # t) (a @ c0 # b) \<longleftrightarrow> str_in (c0 # t) a \<or> str_in (c0 # t) (c0 # b)"
proof (induction a)
  case Nil
  then show ?case by simp
next
  case (Cons x a)
  from Cons.prems have "prefix (c0 # t) (x # a @ c0 # b) \<longleftrightarrow> prefix (c0 # t) (x # a)"
    by (rule prefix_cut_Cons)
  with Cons show ?case by auto
qed


lemma split_py_absent: "\<not> str_in sep s \<Longrightarrow> split_py sep s = [s]"
  by (induction s) auto

lemma prefix_long:
  assumes "sep \<noteq> []" "prefix sep (x # a @ sep @ b)"
  shows "prefix sep (x # a @ butlast sep)"
proof -
  have "prefix (x # a @ butlast sep) (x # a @ (butlast sep @ [last sep]) @ b)"
    by simp
  with assms(1) have "prefix (x # a @ butlast sep) (x # a @ sep @ b)"
    by simp
  moreover have "length sep \<le> length (x # a @ butlast sep)" by simp
  ultimately show ?thesis using assms(2) prefix_length_prefix by blast
qed

lemma not_prefix_before:
  assumes "sep \<noteq> []" "\<not> str_in sep ((x # a) @ butlast sep)"
  shows "\<not> prefix sep (x # a @ sep @ b)"
proof
  assume "prefix sep (x # a @ sep @ b)"
  with assms(1) have "prefix sep (x # a @ butlast sep)" by (rule prefix_long)
  with assms(2) show False by simp
qed

lemma split1_py_first:
  "sep \<noteq> [] \<Longrightarrow> \<not> str_in sep (a @ butlast sep) \<Longrightarrow> split1_py sep (a @ sep @ b) = [a, b]"
proof (induction a)
  case Nil
  then obtain s0 ss where "sep = s0 # ss" by (cases sep) auto
  then show ?case by simp
next
  case (Cons x a)
  from Cons.prems have np: "\<not> prefix sep (x # a @ sep @ b)" by (rule not_prefix_before)
  from Cons.prems(2) have "\<not> str_in sep (a @ butlast sep)" by simp
  with Cons.IH Cons.prems(1) have "split1_py sep (a @ sep @ b) = [a, b]" by blast
  with np show ?case by simp
qed

lemma str_in_append_left: "str_in u b \<Longrightarrow> str_in u (a @ b)"
  by (induction a) auto

lemma str_in_shorter: "str_in (u @ v) s \<Longrightarrow> str_in u s"
  by (induction s) (auto simp add: append_prefixD)

lemma split_py_Cons_no_prefix:
  "\<not> prefix sep (c # cs) \<Longrightarrow>
   split_py sep (c # cs) = (c # hd (split_py sep cs)) # tl (split_py sep cs)"
  using split_py_not_Nil [of sep cs] by (cases "split_py sep cs") auto

lemma split_py_prefix:
  "split_py (c0 # t) ((c0 # t) @ b) = [] # split_py (c0 # t) b"
  by simp

lemma split_py_append_sep:
  "c0 \<notin> set t \<Longrightarrow>
   split_py (c0 # t) (a @ (c0 # t) @ b) = split_py (c0 # t) a @ split_py (c0 # t) b"
proof (induction "c0 # t" a rule: split_py.induct)
  case 1
  then show ?case by simp
next
  case (2 c cs)
  show ?case
  proof (cases "prefix (c0 # t) (c # cs)")
    case True
    then obtain r where r: "c # cs = (c0 # t) @ r" by (auto simp add: prefix_def)
    then have d: "drop (length (c0 # t)) (c # cs) = r" by simp
    from 2(1) True 2(3) d
    have ih: "split_py (c0 # t) (r @ (c0 # t) @ b) = split_py (c0 # t) r @ split_py (c0 # t) b"
      by simp
    have "split_py (c0 # t) ((c # cs) @ (c0 # t) @ b) =
          split_py (c0 # t) ((c0 # t) @ (r @ (c0 # t) @ b))"
      using r by simp
    also have "\<dots> = [] # split_py (c0 # t) (r @ (c0 # t) @ b)" by (rule split_py_prefix)
    also have "\<dots> = ([] # split_py (c0 # t) r) @ split_py (c0 # t) b" using ih by simp
    also have "[] # split_py (c0 # t) r = split_py (c0 # t) ((c0 # t) @ r)"
      by (rule split_py_prefix [symmetric])
    finally show ?thesis using r by simp
  next
    case False
    have np: "\<not> prefix (c0 # t) (c # cs @ c0 # (t @ b))"
      using prefix_cut_Cons [OF 2(3), of c cs "t @ b"] False by blast
    from 2(2) False 2(3)
    have ih: "split_py (c0 # t) (cs @ (c0 # t) @ b) = split_py (c0 # t) cs @ split_py (c0 # t) b"
      by simp
    have "split_py (c0 # t) ((c # cs) @ (c0 # t) @ b) =
          (c # hd (split_py (c0 # t) (cs @ (c0 # t) @ b))) # tl (split_py (c0 # t) (cs @ (c0 # t) @ b))"
      using np split_py_Cons_no_prefix [of "c0 # t" c "cs @ (c0 # t) @ b"] by simp
    also have "\<dots> = ((c # hd (split_py (c0 # t) cs)) # tl (split_py (c0 # t) cs)) @ split_py (c0 # t) b"
      using ih split_py_not_Nil [of "c0 # t" cs] by simp
    also have "(c # hd (split_py (c0 # t) cs)) # tl (split_py (c0 # t) cs) = split_py (c0 # t) (c # cs)"
      using False by (rule split_py_Cons_no_prefix [symmetric])
    finally show ?thesis .
  qed
qed

lemma hd_split_py_prefix: "prefix (hd (split_py sep s)) s"
proof (induction sep s rule: split_py.induct)
  case (1 sep)
  then show ?case by simp
next
  case (2 sep c cs)
  then show ?case
    using split_py_not_Nil [of sep cs] by (cases "split_py sep cs") auto
qed

lemma tl_split_py_occurs:
  "x \<in> set (tl (split_py sep s)) \<Longrightarrow> prefix t x \<Longrightarrow> str_in (sep @ t) s"
proof (induction sep s rule: split_py.induct)
  case (1 sep)
  then show ?case by simp
next
  case (2 sep c cs)
  show ?case
  proof (cases "sep \<noteq> [] \<and> prefix sep (c # cs)")
    case True
    then obtain r where r: "c # cs = sep @ r" by (auto simp add: prefix_def)
    then have d: "drop (length sep) (c # cs) = r" by simp
    from True 2(3) d have x: "x \<in> set (split_py sep r)" by simp
    have "str_in (sep @ t) (sep @ r)"
    proof (cases "x = hd (split_py sep r)")
      case True
      with 2(4) hd_split_py_prefix [of sep r] have "prefix t r"
        by (metis prefix_order.order_trans)
      then have "prefix (sep @ t) (sep @ r)" by simp
      then show ?thesis using r by (cases "sep @ r") auto
    next
      case False
      with x have "x \<in> set (tl (split_py sep r))"
        using split_py_not_Nil [of sep r] by (cases "split_py sep r") auto
      with 2(1) True d 2(4) have "str_in (sep @ t) r" by simp
      then show ?thesis by (rule str_in_append_left)
    qed
    with r show ?thesis by simp
  next
    case False
    with 2(3) have "x \<in> set (tl (split_py sep cs))"
      using split_py_not_Nil [of sep cs] by (cases "split_py sep cs") auto
    with 2(2) False 2(4) have "str_in (sep @ t) cs" by simp
    then show ?thesis by simp
  qed
qed

lemma split_py_no_section:
  assumes "\<not> prefix t s" and "\<not> str_in (sep @ t) s"
  shows "\<forall>x \<in> set (split_py sep s). \<not> prefix t x"
proof
  fix x assume x: "x \<in> set (split_py sep s)"
  show "\<not> prefix t x"
  proof
    assume p: "prefix t x"
    show False
    proof (cases "x = hd (split_py sep s)")
      case True
      with p hd_split_py_prefix [of sep s] have "prefix t s"
        by (metis prefix_order.order_trans)
      with assms(1) show False by contradiction
    next
      case False
      with x have "x \<in> set (tl (split_py sep s))"
        using split_py_not_Nil [of sep s] by (cases "split_py sep s") auto
      from this p have "str_in (sep @ t) s" by (rule tl_split_py_occurs)
      with assms(2) show False by contradiction
    qed
  qed
qed

lemma scan_sections_skip:
  "\<forall>x \<in> set xs. \<not> prefix ''Metadata'' x \<Longrightarrow> scan_sections (xs @ ys) m = scan_sections ys m"
  by (induction xs) (auto simp add: startswith_def)


lemma split1_py_not_Nil: "split1_py sep s \<noteq> []"
  by (induction sep s rule: split1_py.induct) (auto split: list.splits)

lemma split1_py_two:
  "sep \<noteq> [] \<Longrightarrow> str_in sep s \<Longrightarrow> \<exists>a b. split1_py sep s = [a, b]"
proof (induction s)
  case Nil
  then show ?case by simp
next
  case (Cons c s)
  show ?case
  proof (cases "prefix sep (c # s)")
    case True
    with Cons.prems(1) show ?thesis by simp
  next
    case False
    with Cons.prems have "str_in sep s" by simp
    with Cons.IH Cons.prems(1) obtain a b where "split1_py sep s = [a, b]" by blast
    with False show ?thesis by simp
  qed
qed

lemma str_in_pair: "str_in [x, y] (u @ x # y # w)"
  by (induction u) auto

lemma prefix_no_cross:
  assumes "\<not> str_in [x, y] t" and "t = [] \<or> last t \<noteq> x"
    and "prefix t (a @ x # y # b)"
  shows "prefix t a"
proof -
  from assms(3) consider "prefix t a" | w where "t = a @ w" "prefix w (x # y # b)"
    by (auto simp add: prefix_append)
  then show ?thesis
  proof cases
    case 1
    then show ?thesis .
  next
    case 2
    show ?thesis
    proof (cases w)
      case Nil
      with 2 show ?thesis by simp
    next
      case (Cons w1 w2)
      with 2 have w1: "w1 = x" by simp
      show ?thesis
      proof (cases w2)
        case Nil
        with Cons w1 2 assms(2) show ?thesis by simp
      next
        case (Cons w3 w4)
        with \<open>w = w1 # w2\<close> w1 2 have "t = a @ x # y # w4" by simp
        with assms(1) str_in_pair [of x y a w4] show ?thesis by simp
      qed
    qed
  qed
qed

lemma str_in_no_cross:
  assumes "\<not> str_in [x, y] t" and "t \<noteq> []" and "last t \<noteq> x"
  shows "str_in t (a @ x # y # b) \<longleftrightarrow> str_in t a \<or> str_in t (x # y # b)"
proof (induction a)
  case Nil
  with assms(2) show ?case by simp
next
  case (Cons z a)
  have "prefix t (z # a @ x # y # b) \<longleftrightarrow> prefix t (z # a)"
  proof
    assume "prefix t (z # a @ x # y # b)"
    then have pz: "prefix t ((z # a) @ x # y # b)" by simp
    from assms(3) have d: "t = [] \<or> last t \<noteq> x" by simp
    from assms(1) d pz show "prefix t (z # a)" by (rule prefix_no_cross)
  next
    assume "prefix t (z # a)"
    then have "prefix t ((z # a) @ x # y # b)" by (rule prefix_prefix)
    then show "prefix t (z # a @ x # y # b)" by simp
  qed
  with Cons show ?case by auto
qed

section \<open>Parsing a saved document\<close>

lemma readme_content_sections:
  "readme_content r =
     sec_head (name r) (prompt r) @ ''\<newline>## '' @ sec_characteristics @ ''\<newline>## '' @
     sec_voice (name r) @ ''\<newline>## '' @ sec_metadata (image_p r) (entry_message r)"
  by (simp add: readme_content_def sec_head_def sec_characteristics_def sec_voice_def
                sec_metadata_def)

lemma split_readme_content:
  "split_py ''\<newline>## '' (readme_content r) =
     split_py ''\<newline>## '' (sec_head (name r) (prompt r)) @
     split_py ''\<newline>## '' sec_characteristics @
     split_py ''\<newline>## '' (sec_voice (name r)) @
     split_py ''\<newline>## '' (sec_metadata (image_p r) (entry_message r))"
proof -
  have c: "CHR ''\<newline>'' \<notin> set ''## ''" by simp
  show ?thesis
    unfolding readme_content_sections
    by (simp only: split_py_append_sep [OF c])
qed

lemma no_meta_characteristics:
  "\<forall>x \<in> set (split_py ''\<newline>## '' sec_characteristics). \<not> prefix ''Metadata'' x"
proof (rule split_py_no_section)
  show "\<not> prefix ''Metadata'' sec_characteristics"
    by (simp add: sec_characteristics_def)
  show "\<not> str_in (''\<newline>## '' @ ''Metadata'') sec_characteristics"
    by (simp add: sec_characteristics_def)
qed

lemma no_meta_voice:
  assumes "\<not> startswith n ''## Metadata''" and "\<not> str_in ''\<newline>## Metadata'' n"
  shows "\<forall>x \<in> set (split_py ''\<newline>## '' (sec_voice n)). \<not> prefix ''Metadata'' x"
proof (rule split_py_no_section)
  let ?rest = "''peaks with:\<newline>- modern internet slang\<newline>- expertise in their field\<newline>''"
  show "\<not> prefix ''Metadata'' (sec_voice n)"
    by (simp add: sec_voice_def)
  have p: "\<not> prefix ''## Metadata'' (n @ CHR '' '' # CHR ''s'' # ?rest)"
  proof
    assume pn: "prefix ''## Metadata'' (n @ CHR '' '' # CHR ''s'' # ?rest)"
    have h1: "\<not> str_in [CHR '' '', CHR ''s''] ''## Metadata''" by simp
    have h2: "''## Metadata'' = [] \<or> last ''## Metadata'' \<noteq> CHR '' ''" by simp
    from h1 h2 pn have "prefix ''## Metadata'' n" by (rule prefix_no_cross)
    with assms(1) show False by (simp add: startswith_def)
  qed
  have h3: "\<not> str_in [CHR '' '', CHR ''s''] ''\<newline>## Metadata''" by simp
  have h4: "''\<newline>## Metadata'' \<noteq> []" by simp
  have h5: "last ''\<newline>## Metadata'' \<noteq> CHR '' ''" by simp
  have "\<not> str_in ''\<newline>## Metadata'' (n @ CHR '' '' # CHR ''s'' # ?rest)"
    unfolding str_in_no_cross [OF h3 h4 h5] using assms(2) by simp
  with p have "\<not> str_in ''\<newline>## Metadata'' (CHR ''\<newline>'' # n @ CHR '' '' # CHR ''s'' # ?rest)"
    by simp
  then show "\<not> str_in (''\<newline>## '' @ ''Metadata'') (sec_voice n)"
    by (simp add: sec_voice_def)
qed

lemma no_meta_head:
  assumes "\<not> str_in ''\<newline>## Metadata'' n" and "\<not> prefix ''## '' p"
    and "\<not> str_in ''\<newline>## Metadata'' p"
  shows "\<forall>x \<in> set (split_py ''\<newline>## '' (sec_head n p)). \<not> prefix ''Metadata'' x"
proof (rule split_py_no_section)
  show "\<not> prefix ''Metadata'' (sec_head n p)"
    by (simp add: sec_head_def)
  have c: "CHR ''\<newline>'' \<notin> set ''## Metadata''" by simp
  from assms(2) have "\<not> prefix ''## Metadata'' p"
    using append_prefixD [of "''## ''" "''Metadata''" p] by auto
  with assms(3) have "\<not> str_in ''\<newline>## Metadata'' (CHR ''\<newline>'' # p)" by simp
  then have "\<not> str_in ''\<newline>## Metadata'' ((CHR ''\<newline>'' # p) @ CHR ''\<newline>'' # [])"
    unfolding str_in_at_char [OF c] by simp
  then have "\<not> str_in ''\<newline>## Metadata'' (CHR ''\<newline>'' # CHR ''\<newline>'' # p @ ''\<newline>'')"
    by simp
  with assms(1) have "\<not> str_in ''\<newline>## Metadata'' (n @ CHR ''\<newline>'' # CHR ''\<newline>'' # p @ ''\<newline>'')"
    unfolding str_in_at_char [OF c] by simp
  then show "\<not> str_in (''\<newline>## '' @ ''Metadata'') (sec_head n p)"
    by (simp add: sec_head_def)
qed

lemma split_metadata_section:
  assumes "CHR ''\<newline>'' \<notin> set img" and "CHR ''\<newline>'' \<notin> set em"
  shows "split_py ''\<newline>## '' (sec_metadata img em) = [sec_metadata img em]"
proof (rule split_py_absent)
  show "\<not> str_in ''\<newline>## '' (sec_metadata img em)"
    using assms by (simp add: sec_metadata_def str_in_skip)
qed

lemma lines_metadata_section:
  assumes "CHR ''\<newline>'' \<notin> set img" and "CHR ''\<newline>'' \<notin> set em"
  shows "split_py ''\<newline>'' (sec_metadata img em) =
           [''Metadata'', ''- image: '' @ img, ''- entry_message: '' @ em, []]"
proof -
  have c: "CHR ''\<newline>'' \<notin> set []" by simp
  have "sec_metadata img em =
          ''Metadata'' @ ''\<newline>'' @ (''- image: '' @ img) @ ''\<newline>'' @
          (''- entry_message: '' @ em) @ ''\<newline>'' @ []"
    by (simp add: sec_metadata_def)
  then have "split_py ''\<newline>'' (sec_metadata img em) =
          split_py ''\<newline>'' ''Metadata'' @ split_py ''\<newline>'' (''- image: '' @ img) @
          split_py ''\<newline>'' (''- entry_message: '' @ em) @ split_py ''\<newline>'' []"
    by (simp only: split_py_append_sep [OF c])
  moreover have "split_py ''\<newline>'' (''- image: '' @ img) = [''- image: '' @ img]"
    using assms(1) by (intro split_py_absent str_in_absent_char) simp
  moreover have "split_py ''\<newline>'' (''- entry_message: '' @ em) = [''- entry_message: '' @ em]"
    using assms(2) by (intro split_py_absent str_in_absent_char) simp
  ultimately show ?thesis by simp
qed

lemma metadata_line_image:
  "metadata_line (''- image: '' @ img) m = m(''image'' \<mapsto> strip img)"
proof -
  have "split1_py '': '' (''image'' @ '': '' @ img) = [''image'', img]"
    by (rule split1_py_first) simp_all
  then show ?thesis by (simp add: metadata_line_def startswith_def)
qed

lemma metadata_line_entry_message:
  "metadata_line (''- entry_message: '' @ em) m = m(''entry_message'' \<mapsto> strip em)"
proof -
  have "split1_py '': '' (''entry_message'' @ '': '' @ em) = [''entry_message'', em]"
    by (rule split1_py_first) simp_all
  then show ?thesis by (simp add: metadata_line_def startswith_def)
qed

lemma scan_metadata_section:
  assumes "CHR ''\<newline>'' \<notin> set img" and "CHR ''\<newline>'' \<notin> set em"
  shows "scan_sections [sec_metadata img em] m =
           m(''image'' \<mapsto> strip img, ''entry_message'' \<mapsto> strip em)"
proof -
  have st: "startswith (sec_metadata img em) ''Metadata''"
    by (simp add: startswith_def sec_metadata_def)
  have m1: "metadata_line ''Metadata'' m' = m'" for m'
    by (simp add: metadata_line_def startswith_def)
  have m2: "metadata_line [] m' = m'" for m'
    by (simp add: metadata_line_def startswith_def)
  show ?thesis
    by (simp only: scan_sections.simps st if_True lines_metadata_section [OF assms]
          fold.simps comp_apply id_apply m1 m2 metadata_line_image
          metadata_line_entry_message)
qed

lemma hd_split_py_Cons:
  "\<not> prefix sep (c # cs) \<Longrightarrow> hd (split_py sep (c # cs)) = c # hd (split_py sep cs)"
  using split_py_Cons_no_prefix [of sep c cs] by simp

lemma hd_split_py_keep:
  "c0 \<notin> set t \<Longrightarrow> \<not> str_in (c0 # t) a \<Longrightarrow>
   hd (split_py (c0 # t) (a @ c0 # rest)) = a @ hd (split_py (c0 # t) (c0 # rest))"
proof (induction a)
  case Nil
  then show ?case by simp
next
  case (Cons x a)
  from Cons.prems have "\<not> prefix (c0 # t) (x # a)" by simp
  then have np: "\<not> prefix (c0 # t) (x # a @ c0 # rest)"
    using prefix_cut_Cons [OF Cons.prems(1), of x a rest] by blast
  from Cons.prems have "\<not> str_in (c0 # t) a" by simp
  with Cons.IH Cons.prems(1)
  have ih: "hd (split_py (c0 # t) (a @ c0 # rest)) = a @ hd (split_py (c0 # t) (c0 # rest))"
    by blast
  from np have "hd (split_py (c0 # t) (x # a @ c0 # rest)) =
                x # hd (split_py (c0 # t) (a @ c0 # rest))"
    by (rule hd_split_py_Cons)
  with ih show ?case by simp
qed

lemma first_section:
  assumes "\<not> str_in ''\<newline>## '' n" and "\<not> prefix ''## '' p"
  shows "hd (split_py ''\<newline>## '' (sec_head n p)) =
           (''# '' @ n) @ ''\<newline>\<newline>'' @ hd (split_py ''\<newline>## '' (p @ ''\<newline>''))"
proof -
  have c: "CHR ''\<newline>'' \<notin> set ''## ''" by simp
  from assms(1) have a: "\<not> str_in ''\<newline>## '' (''# '' @ n)" by simp
  have "\<not> prefix ''## '' (p @ ''\<newline>'')"
    using prefix_cut [OF c, of p "[]"] assms(2) by auto
  then have n2: "\<not> prefix ''\<newline>## '' (CHR ''\<newline>'' # p @ ''\<newline>'')" by simp
  have n1: "\<not> prefix ''\<newline>## '' (CHR ''\<newline>'' # CHR ''\<newline>'' # p @ ''\<newline>'')"
    by simp
  have "sec_head n p = (''# '' @ n) @ (CHR ''\<newline>'' # CHR ''\<newline>'' # p @ ''\<newline>'')"
    by (simp add: sec_head_def)
  then have "hd (split_py ''\<newline>## '' (sec_head n p)) =
             (''# '' @ n) @ hd (split_py ''\<newline>## '' (CHR ''\<newline>'' # CHR ''\<newline>'' # p @ ''\<newline>''))"
    by (simp only: hd_split_py_keep [OF c a])
  also have "hd (split_py ''\<newline>## '' (CHR ''\<newline>'' # CHR ''\<newline>'' # p @ ''\<newline>'')) =
             CHR ''\<newline>'' # CHR ''\<newline>'' # hd (split_py ''\<newline>## '' (p @ ''\<newline>''))"
    by (simp only: hd_split_py_Cons [OF n1] hd_split_py_Cons [OF n2])
  finally show ?thesis by simp
qed

lemma first_readme_content:
  assumes "\<not> str_in ''\<newline>## '' (name r)" and "\<not> prefix ''## '' (prompt r)"
  shows "hd (split_py ''\<newline>## '' (readme_content r)) =
           (''# '' @ name r) @ ''\<newline>\<newline>'' @
           hd (split_py ''\<newline>## '' (prompt r @ ''\<newline>''))"
  using first_section [OF assms] split_py_not_Nil [of "''\<newline>## ''" "sec_head (name r) (prompt r)"]
  by (simp add: split_readme_content)

lemma scan_readme_content:
  assumes "\<not> startswith (name r) ''## Metadata''"
    and "\<not> str_in ''\<newline>## Metadata'' (name r)"
    and "\<not> prefix ''## '' (prompt r)" and "\<not> str_in ''\<newline>## Metadata'' (prompt r)"
    and "CHR ''\<newline>'' \<notin> set (image_p r)" and "CHR ''\<newline>'' \<notin> set (entry_message r)"
  shows "scan_sections (split_py ''\<newline>## '' (readme_content r)) m =
           m(''image'' \<mapsto> strip (image_p r), ''entry_message'' \<mapsto> strip (entry_message r))"
proof -
  let ?sep = "''\<newline>## ''"
  let ?H = "split_py ?sep (sec_head (name r) (prompt r))"
  let ?C = "split_py ?sep sec_characteristics"
  let ?V = "split_py ?sep (sec_voice (name r))"
  let ?M = "sec_metadata (image_p r) (entry_message r)"
  have S: "split_py ?sep (readme_content r) = (?H @ ?C @ ?V) @ [?M]"
    by (simp add: split_readme_content split_metadata_section [OF assms(5) assms(6)])
  have "\<forall>x \<in> set (?H @ ?C @ ?V). \<not> prefix ''Metadata'' x"
    using no_meta_head [OF assms(2) assms(3) assms(4)] no_meta_characteristics
      no_meta_voice [OF assms(1) assms(2)]
    by auto
  then have "scan_sections ((?H @ ?C @ ?V) @ [?M]) m = scan_sections [?M] m"
    by (rule scan_sections_skip)
  also have "\<dots> = m(''image'' \<mapsto> strip (image_p r),
                      ''entry_message'' \<mapsto> strip (entry_message r))"
    using assms(5) assms(6) by (rule scan_metadata_section)
  finally show ?thesis unfolding S .
qed




lemma parse_readme_metadata:
  assumes "md_convert content = Inr html"
    and "str_in ''\<newline>\<newline>'' (hd (split_py ''\<newline>## '' content))"
  shows "\<exists>r'. parse_readme md_convert content = Inr r' \<and>
           image_p r' = get_or_empty (scan_sections (split_py ''\<newline>## '' content)
                          [''image'' \<mapsto> [], ''entry_message'' \<mapsto> []]) ''image'' \<and>
           entry_message r' = get_or_empty (scan_sections (split_py ''\<newline>## '' content)
                          [''image'' \<mapsto> [], ''entry_message'' \<mapsto> []]) ''entry_message''"
proof -
  obtain first others where S: "split_py ''\<newline>## '' content = first # others"
    using split_py_not_Nil [of "''\<newline>## ''" content]
    by (cases "split_py ''\<newline>## '' content") auto
  obtain title rest where T: "split1_py ''\<newline>'' first = title # rest"
    using split1_py_not_Nil [of "''\<newline>''" first]
    by (cases "split1_py ''\<newline>'' first") auto
  from assms(2) S have "str_in ''\<newline>\<newline>'' first" by simp
  then obtain a b where B: "split1_py ''\<newline>\<newline>'' first = [a, b]"
    using split1_py_two [of "''\<newline>\<newline>''" first] by auto
  show ?thesis
    unfolding parse_readme_def assms(1) S
    by (simp add: T B Let_def del: scan_sections.simps)
qed



section \<open>Parse and serialize\<close>





text \<open>
  C8, amended: when the prompt holds lines that start with \<open>"## "\<close>, but not as its first
  line and none of them beginning \<open>"## Metadata"\<close>, the document that \<open>save_persona\<close>
  writes still parses, and the image and the entry message that are read from it are the
  saved ones. The markdown conversion of the document does not raise; the name holds no
  line after its first that starts with \<open>"## "\<close> and does not begin \<open>"## Metadata"\<close>;
  the image and the entry message are one line each, without leading or trailing
  whitespace.
\<close>

theorem embedded_header_metadata:
  assumes "md_convert (readme_content r) = Inr html"
    and "\<not> str_in ''\<newline>## '' (name r)" and "\<not> startswith (name r) ''## Metadata''"
    and "\<not> startswith (prompt r) ''## ''"
    and "\<not> str_in ''\<newline>## Metadata'' (prompt r)"
    and "CHR ''\<newline>'' \<notin> set (image_p r)" and "strip (image_p r) = image_p r"
    and "CHR ''\<newline>'' \<notin> set (entry_message r)"
    and "strip (entry_message r) = entry_message r"
  shows "\<exists>r'. parse_readme md_convert (readme_content r) = Inr r' \<and>
               image_p r' = image_p r \<and> entry_message r' = entry_message r"
proof -
  from assms(4) have p: "\<not> prefix ''## '' (prompt r)" by (simp add: startswith_def)
  from assms(2) have m: "\<not> str_in ''\<newline>## Metadata'' (name r)"
    using str_in_shorter [of "''\<newline>## ''" "''Metadata''" "name r"] by auto
  have "prefix ''\<newline>\<newline>'' (''\<newline>\<newline>'' @ hd (split_py ''\<newline>## '' (prompt r @ ''\<newline>'')))"
    by simp
  then have "str_in ''\<newline>\<newline>'' (''\<newline>\<newline>'' @ hd (split_py ''\<newline>## '' (prompt r @ ''\<newline>'')))"
    by simp
  then have "str_in ''\<newline>\<newline>'' ((''# '' @ name r) @ ''\<newline>\<newline>'' @
               hd (split_py ''\<newline>## '' (prompt r @ ''\<newline>'')))"
    by (rule str_in_append_left)
  then have blank: "str_in ''\<newline>\<newline>'' (hd (split_py ''\<newline>## '' (readme_content r)))"
    by (simp only: first_readme_content [OF assms(2) p])
  from parse_readme_metadata [where md_convert = md_convert, OF assms(1) blank]
    scan_readme_content [OF assms(3) m p assms(5) assms(6) assms(8)] assms(7) assms(9)
  show ?thesis by (simp add: get_or_empty_def)
qed

theorem embedded_header_metadata_witness:
  "md_plain (readme_content sections_persona) = Inr [] \<and>
   \<not> str_in ''\<newline>## '' (name sections_persona) \<and>
   \<not> startswith (name sections_persona) ''## Metadata'' \<and>
   \<not> startswith (prompt sections_persona) ''## '' \<and>
   \<not> str_in ''\<newline>## Metadata'' (prompt sections_persona) \<and>
   str_in ''\<newline>## '' (prompt sections_persona) \<and>
   CHR ''\<newline>'' \<notin> set (image_p sections_persona) \<and>
   strip (image_p sections_persona) = image_p sections_persona \<and>
   CHR ''\<newline>'' \<notin> set (entry_message sections_persona) \<and>
   strip (entry_message sections_persona) = entry_message sections_persona \<and>
   (\<exists>r'. parse_readme md_plain (readme_content sections_persona) = Inr r' \<and>
         image_p r' = image_p sections_persona \<and>
         entry_message r' = entry_message sections_persona)"
proof -
  have md: "md_plain (readme_content sections_persona) = Inr []" by (simp add: md_plain_def)
  have h: "\<not> str_in ''\<newline>## '' (name sections_persona)"
    "\<not> startswith (name sections_persona) ''## Metadata''"
    "\<not> startswith (prompt sections_persona) ''## ''"
    "\<not> str_in ''\<newline>## Metadata'' (prompt sections_persona)"
    "CHR ''\<newline>'' \<notin> set (image_p sections_persona)"
    "strip (image_p sections_persona) = image_p sections_persona"
    "CHR ''\<newline>'' \<notin> set (entry_message sections_persona)"
    "strip (entry_message sections_persona) = entry_message sections_persona"
    by (simp_all add: sections_persona_def strip_def isspace_def startswith_def)
  have e: "str_in ''\<newline>## '' (prompt sections_persona)"
    by (simp add: sections_persona_def)
  from embedded_header_metadata [where md_convert = md_plain, OF md h] md h e
  show ?thesis by blast
qed

text \<open>
  C8 as stated: the prompt of \<open>header_persona\<close> holds the line \<open>## Metadata\<close>. Its section
  is the first one that starts with \<open>Metadata\<close>, the loop stops there, and the image and
  the entry message come back empty.
\<close>

theorem embedded_metadata_header_hijacks:
  "str_in ''\<newline>## '' (prompt header_persona) \<and>
   parse_readme md_plain (readme_content header_persona) =
     Inr \<lparr>name = ''Nova'', prompt = ''Hi'', image_p = [], entry_message = []\<rparr> \<and>
   image_p header_persona = ''https://x.com/a.png'' \<and> entry_message header_persona = ''hello''"
  by (simp add: header_persona_def parse_readme_def md_plain_def readme_content_def
        startswith_def metadata_line_def strip_def isspace_def get_or_empty_def)

text \<open>
  C2: the first section of this document has two paragraphs after the title. The
  conversion does not raise, and the prompt holds both paragraphs, where the first
  paragraph is \<open>I am Nova.\<close>
\<close>

theorem parse_readme_two_paragraphs:
  "parse_readme md_plain ''# Nova\<newline>\<newline>I am Nova.\<newline>\<newline>Second paragraph.\<newline>\<newline>## Metadata\<newline>- image: \<newline>- entry_message: hi\<newline>'' =
     Inr \<lparr>name = ''Nova'', prompt = ''I am Nova.\<newline>\<newline>Second paragraph.'', image_p = [],
          entry_message = ''hi''\<rparr>"
  by (simp add: parse_readme_def md_plain_def startswith_def metadata_line_def strip_def
        isspace_def get_or_empty_def)

text \<open>
  C3: \<open>replace("# ", "")\<close> removes every \<open>"# "\<close> of the title line. The conversion does
  not raise, and the title \<open># C# Guru\<close> gives the name \<open>CGuru\<close>, where the title without
  its leading marker is \<open>C# Guru\<close>.
\<close>

theorem parse_readme_name_inner_marker:
  "parse_readme md_plain ''# C# Guru\<newline>\<newline>I code.\<newline>'' =
     Inr \<lparr>name = ''CGuru'', prompt = ''I code.'', image_p = [], entry_message = []\<rparr>"
  by (simp add: parse_readme_def md_plain_def startswith_def metadata_line_def strip_def
        isspace_def get_or_empty_def)

section \<open>Operations of the store\<close>

text \<open>
  C4: for a key that the mapping does not hold, \<open>update_persona_image\<close> returns False
  without raising and leaves the whole store as it was: the mapping, the stored records
  and the files.
\<close>

theorem update_persona_image_unknown_key:
  "key \<notin> set (map fst (personas s)) \<Longrightarrow> update_persona_image key image_path s = (False, s)"
  by (simp add: update_persona_image_def map_of_eq_None_iff [THEN iffD2])

theorem update_persona_image_unknown_key_witness:
  "''ghost'' \<notin> set (map fst (personas nova_store)) \<and>
   update_persona_image ''ghost'' ''https://x.com/a.png'' nova_store = (False, nova_store)"
proof -
  have h: "''ghost'' \<notin> set (map fst (personas nova_store))"
    by (simp add: nova_store_def)
  from h update_persona_image_unknown_key [OF h] show ?thesis by blast
qed

text \<open>
  C5: for a key of the store, \<open>needs_image_upload\<close> is true when the image is empty, true
  when the image is not empty and does not contain the domain, and false when the image
  is not empty and contains the domain.
\<close>

theorem needs_image_upload_table:
  "stored s key = Some p \<Longrightarrow>
     (image_p p = [] \<longrightarrow> needs_image_upload key domain s) \<and>
     (image_p p \<noteq> [] \<and> \<not> str_in domain (image_p p) \<longrightarrow> needs_image_upload key domain s) \<and>
     (image_p p \<noteq> [] \<and> str_in domain (image_p p) \<longrightarrow> \<not> needs_image_upload key domain s)"
  by (auto simp add: stored_def needs_image_upload_def)

theorem needs_image_upload_table_witness:
  "stored nova_store ''nova'' = Some nova \<and> image_p nova = [] \<and>
   needs_image_upload ''nova'' ''x.com'' nova_store"
proof -
  have h: "stored nova_store ''nova'' = Some nova"
    by (simp add: stored_def nova_store_def)
  have e: "image_p nova = []" by (simp add: nova_def)
  from needs_image_upload_table [OF h, of "''x.com''"] h e show ?thesis by blast
qed

text \<open>
  C5, the sentence "false whenever image is empty": the stored image of \<open>nova\<close> is empty
  and \<open>needs_image_upload\<close> is true.
\<close>

theorem needs_image_upload_empty_image:
  "stored nova_store ''nova'' = Some nova \<and> image_p nova = [] \<and>
   needs_image_upload ''nova'' ''uploadthing.com'' nova_store"
  by (simp add: stored_def nova_store_def nova_def needs_image_upload_def)

text \<open>
  C10: for a key that the mapping does not hold, \<open>needs_image_upload\<close> returns False,
  whatever the domain.
\<close>

theorem needs_image_upload_unknown_key:
  "key \<notin> set (map fst (personas s)) \<Longrightarrow> \<not> needs_image_upload key domain s"
  by (simp add: needs_image_upload_def map_of_eq_None_iff [THEN iffD2])

theorem needs_image_upload_unknown_key_witness:
  "''ghost'' \<notin> set (map fst (personas nova_store)) \<and>
   \<not> needs_image_upload ''ghost'' ''uploadthing.com'' nova_store"
proof -
  have h: "''ghost'' \<notin> set (map fst (personas nova_store))"
    by (simp add: nova_store_def)
  from h needs_image_upload_unknown_key [OF h] show ?thesis by blast
qed

text \<open>
  C6, amended: for a non-empty key that the mapping does not hold, \<open>get_persona\<close> raises
  the KeyError whose message names the key and lists the keys of the store, joined by
  commas, in the order of the mapping; the store is unchanged. For an empty store the
  list is empty.
\<close>

theorem get_persona_not_found:
  "key \<noteq> [] \<Longrightarrow> key \<notin> set (map fst (personas s)) \<Longrightarrow>
   get_persona rnd (Some key) s =
     (Inl (KeyError (''Persona '' @ [CHR 0x27] @ key @ [CHR 0x27] @
                     '' not found. Valid options: '' @ join_py '', '' (map fst (personas s)))), s)"
  by (simp add: get_persona_def not_found_message_def map_of_eq_None_iff [THEN iffD2])

theorem get_persona_not_found_witness:
  "''ghost'' \<noteq> [] \<and> ''ghost'' \<notin> set (map fst (personas nova_store)) \<and>
   get_persona 0 (Some ''ghost'') nova_store =
     (Inl (KeyError ''Persona 'ghost' not found. Valid options: nova''), nova_store)"
proof -
  have h: "''ghost'' \<notin> set (map fst (personas nova_store))"
    by (simp add: nova_store_def)
  have k: "''ghost'' \<noteq> []" by simp
  have m: "map fst (personas nova_store) = [''nova'']" by (simp add: nova_store_def)
  from get_persona_not_found [OF k h, of 0] h k m show ?thesis by simp
qed

text \<open>
  C6 as stated: the empty string is not a key of the store, and \<open>get_persona\<close> called with
  it raises nothing: it returns a copy of a persona chosen at random.
\<close>

theorem get_persona_empty_key:
  "[] \<notin> set (map fst (personas nova_store)) \<and>
   fst (get_persona 0 (Some []) nova_store) = Inr 1"
  by (simp add: get_persona_def nova_store_def random_choice_def copy_dict_def)

text \<open>
  C7: for a key of the store, \<open>get_persona\<close> returns a new dict that is the stored record
  with the instruction block appended to its prompt, and the mapping and every stored
  record are the same after the call. The store is one whose keys are directory names and
  whose references are allocated (\<open>store_ok\<close>).
\<close>

theorem get_persona_by_key_copy:
  assumes "store_ok s" and "stored s key = Some p"
  shows "\<exists>b s'. get_persona rnd (Some key) s = (Inr b, s') \<and>
           heap s' b = p\<lparr>prompt := prompt p @ interaction_instructions\<rparr> \<and>
           personas s' = personas s \<and> (\<forall>k. stored s' k = stored s k)"
proof -
  from assms(2) obtain a where a: "map_of (personas s) key = Some a" and p: "p = heap s a"
    by (auto simp add: stored_def)
  from a have mem: "(key, a) \<in> set (personas s)" by (rule map_of_SomeD)
  with assms(1) have key: "key \<noteq> []" and fresh: "a < next_ref s"
    by (auto simp add: store_ok_def)
  have others: "\<And>k c. map_of (personas s) k = Some c \<Longrightarrow> c \<noteq> next_ref s"
    using assms(1) by (fastforce simp add: store_ok_def dest: map_of_SomeD)
  have frame: "map_option ((heap s)(next_ref s := v)) (map_of (personas s) k) =
               map_option (heap s) (map_of (personas s) k)" for v k
    using others [of k] by (cases "map_of (personas s) k") auto
  show ?thesis
    using a p key frame
    by (simp add: get_persona_def copy_dict_def stored_def Let_def)
qed

theorem get_persona_by_key_copy_witness:
  "store_ok nova_store \<and> stored nova_store ''nova'' = Some nova \<and>
   (\<exists>b s'. get_persona 0 (Some ''nova'') nova_store = (Inr b, s') \<and>
      heap s' b = nova\<lparr>prompt := prompt nova @ interaction_instructions\<rparr> \<and>
      personas s' = personas nova_store \<and> (\<forall>k. stored s' k = stored nova_store k))"
proof -
  have ok: "store_ok nova_store" by (simp add: store_ok_def nova_store_def)
  have st: "stored nova_store ''nova'' = Some nova" by (simp add: stored_def nova_store_def)
  from get_persona_by_key_copy [OF ok st, of 0] ok st show ?thesis by blast
qed

section \<open>The meeting bot request\<close>

lemma create_meeting_bot_request_rejected:
  "http_url u = None \<Longrightarrow>
   create_meeting_bot_request http_url m w i n recorder_only (Some u) em ex freq =
     Inl ValidationError"
  by (simp add: create_meeting_bot_request_def Let_def)

text \<open>
  C9: for persona name \<open>n\<close>, bot identifier \<open>i\<close> and websocket URL \<open>w\<close>, and an avatar
  that is absent or passes the validation, \<open>create_meeting_bot\<close> constructs a request
  whose deduplication key is \<open>n + "-BaaS-" + i\<close> and whose streaming object has both
  endpoints equal to \<open>w + "/ws/" + i\<close>.
\<close>

theorem create_meeting_bot_request_fields:
  assumes "img = None \<or> (\<exists>u v. img = Some u \<and> http_url u = Some v)"
  shows "\<exists>req. create_meeting_bot_request http_url m w i n recorder_only img em ex freq = Inr req \<and>
           deduplication_key req = Some (n @ ''-BaaS-'' @ i) \<and>
           input_url (streaming req) = w @ ''/ws/'' @ i \<and>
           output_url (streaming req) = w @ ''/ws/'' @ i"
  using assms by (auto simp add: create_meeting_bot_request_def Let_def)

theorem create_meeting_bot_request_fields_witness:
  "(Some ''https://x.com'' = None \<or>
      (\<exists>u v. Some ''https://x.com'' = Some u \<and> url_with_slash u = Some v)) \<and>
   create_meeting_bot_request url_with_slash ''https://meet.example/abc'' ''wss://host''
       ''42'' ''Nova'' False (Some ''https://x.com'') (Some ''hi'') None ''24khz'' =
     Inr nova_request \<and>
   deduplication_key nova_request = Some ''Nova-BaaS-42'' \<and>
   input_url (streaming nova_request) = ''wss://host/ws/42'' \<and>
   output_url (streaming nova_request) = ''wss://host/ws/42''"
proof -
  have h: "Some ''https://x.com'' = None \<or>
      (\<exists>u v. Some ''https://x.com'' = Some u \<and> url_with_slash u = Some v)"
    by (simp add: url_with_slash_def)
  have e: "create_meeting_bot_request url_with_slash ''https://meet.example/abc'' ''wss://host''
       ''42'' ''Nova'' False (Some ''https://x.com'') (Some ''hi'') None ''24khz'' =
     Inr nova_request"
    by (simp add: create_meeting_bot_request_def url_with_slash_def nova_request_def Let_def)
  from create_meeting_bot_request_fields [OF h, where m = "''https://meet.example/abc''"
      and w = "''wss://host''" and i = "''42''" and n = "''Nova''" and recorder_only = False
      and em = "Some ''hi''" and ex = "None :: unit option" and freq = "''24khz''"]
    h e
  show ?thesis by (simp add: nova_request_def)
qed

end
